theory Spec2Isabelle
  imports Complex_Main
begin

section \<open>The script as abstract syntax\<close>

text \<open>
  The repository is one Python module, \<^verbatim>\<open>script.py\<close>, whose body is a straight line of
  imports, assignments and expression statements. It is embedded as the syntax tree
  Python builds for it: names, attribute accesses, calls with positional and keyword
  arguments, and literals. A float literal keeps the digits and the power of ten it is
  written with: \<^verbatim>\<open>2.0\<close> is \<open>FloatLit 20 (-1)\<close>, \<^verbatim>\<open>0.005\<close> is \<open>FloatLit 5 (-3)\<close>, \<^verbatim>\<open>2e3\<close> is
  \<open>FloatLit 2 3\<close>. The statement type also has Python's \<^verbatim>\<open>try\<close>/\<^verbatim>\<open>except\<close>, which the
  script does not use, so that the absence of a handler is a property of the script and
  not of the type.
\<close>

datatype expr =
    Name string
  | Attribute expr string
  | Call expr "expr list" "keyword list"
  | IntLit int
  | FloatLit int int
  | StrLit string
  | BoolLit bool
  | ListLit "expr list"
and keyword = Keyword string expr

datatype stmt =
    Import string "string list"
  | Assign string expr
  | Expr expr
  | Try "stmt list" "stmt list"

text \<open>
  The module body, statement by statement (source lines 1 to 23; comments and blank
  lines carry no statement, and the stray semicolon of line 14 ends an ordinary
  assignment). \<open>Import p subs\<close> is \<^verbatim>\<open>import p.subs\<close>, which binds the name \<open>p\<close>.
\<close>

definition script :: "stmt list" where
  "script =
    [Import ''hoomd'' [],
     Import ''hoomd'' [''md''],
     Expr (Call (Attribute (Attribute (Name ''hoomd'') ''context'') ''initialize'') [] []),
     Expr (Call (Attribute (Attribute (Name ''hoomd'') ''init'') ''create_lattice'') []
       [Keyword ''unitcell''
          (Call (Attribute (Attribute (Name ''hoomd'') ''lattice'') ''sc'') []
             [Keyword ''a'' (FloatLit 20 (-1))]),
        Keyword ''n'' (IntLit 5)]),
     Assign ''nl''
       (Call (Attribute (Attribute (Attribute (Name ''hoomd'') ''md'') ''nlist'') ''cell'')
          [] []),
     Assign ''lj''
       (Call (Attribute (Attribute (Attribute (Name ''hoomd'') ''md'') ''pair'') ''lj'') []
          [Keyword ''r_cut'' (FloatLit 25 (-1)), Keyword ''nlist'' (Name ''nl'')]),
     Expr (Call (Attribute (Attribute (Name ''lj'') ''pair_coeff'') ''set'')
       [StrLit ''A'', StrLit ''A'']
       [Keyword ''epsilon'' (FloatLit 10 (-1)), Keyword ''sigma'' (FloatLit 10 (-1))]),
     Assign ''all'' (Call (Attribute (Attribute (Name ''hoomd'') ''group'') ''all'') [] []),
     Expr (Call
       (Attribute (Attribute (Attribute (Name ''hoomd'') ''md'') ''integrate'')
          ''mode_standard'')
       [] [Keyword ''dt'' (FloatLit 5 (-3))]),
     Expr (Call
       (Attribute (Attribute (Attribute (Name ''hoomd'') ''md'') ''integrate'') ''langevin'')
       [] [Keyword ''group'' (Name ''all''), Keyword ''kT'' (FloatLit 2 (-1)),
           Keyword ''seed'' (IntLit 42)]),
     Expr (Call (Attribute (Attribute (Name ''hoomd'') ''analyze'') ''log'') []
       [Keyword ''filename'' (StrLit ''log-output.log''),
        Keyword ''quantities'' (ListLit [StrLit ''potential_energy'']),
        Keyword ''period'' (IntLit 100),
        Keyword ''overwrite'' (BoolLit True)]),
     Expr (Call (Attribute (Attribute (Name ''hoomd'') ''dump'') ''gsd'')
       [StrLit ''trajectory.gsd'']
       [Keyword ''period'' (FloatLit 2 3), Keyword ''group'' (Name ''all''),
        Keyword ''overwrite'' (BoolLit True)]),
     Expr (Call (Attribute (Name ''hoomd'') ''run'') [FloatLit 1 4] [])]"


section \<open>Running the script against an external engine\<close>

text \<open>
  Values are Python's integers, floats, strings, booleans and lists, and objects of the
  external library, which the script only ever holds as handles of an abstract type
  \<open>'h\<close>. A float literal denotes its decimal value, a rational; Python rounds that value
  to the nearest binary64 number, which changes nothing for an integer of magnitude at
  most \<open>2 ^ 53\<close>.
\<close>

datatype 'h val =
    VInt int
  | VFloat rat
  | VStr string
  | VBool bool
  | VList "'h val list"
  | VObj 'h

definition float_value :: "int \<Rightarrow> int \<Rightarrow> rat" where
  "float_value m e = (if 0 \<le> e then of_int m * 10 ^ nat e else of_int m / 10 ^ nat (- e))"

text \<open>
  Everything the script does is a request to the external library: importing a module,
  reading an attribute of a value, calling a value with positional and keyword
  arguments. The engine is a parameter: given a request and its own state (the world)
  it answers with a value or raises an error of an abstract type \<open>'e\<close>, and leaves a new
  world. The only error of the interpreter's own is the one Python raises for an unbound
  name.
\<close>

datatype 'h request =
    ReqImport string "string list"
  | ReqGetAttr "'h val" string
  | ReqCall "'h val" "'h val list" "(string \<times> 'h val) list"

datatype 'e exn = External 'e | NameError string

type_synonym ('h, 'e) event = "'h request \<times> ('e + 'h val)"

type_synonym ('h, 'e, 'w) engine = "'h request \<Rightarrow> 'w \<Rightarrow> ('e + 'h val) \<times> 'w"

record ('h, 'e, 'w) state =
  env :: "string \<rightharpoonup> 'h val"
  world :: 'w
  trace :: "('h, 'e) event list"

definition ask ::
  "('h, 'e, 'w) engine \<Rightarrow> 'h request \<Rightarrow> ('h, 'e, 'w) state
     \<Rightarrow> ('e exn + 'h val) \<times> ('h, 'e, 'w) state" where
  "ask eng req s =
     (case eng req (world s) of
        (out, w') \<Rightarrow>
          (case out of Inl e \<Rightarrow> Inl (External e) | Inr v \<Rightarrow> Inr v,
           s\<lparr>world := w', trace := trace s @ [(req, out)]\<rparr>))"

text \<open>
  Expressions are evaluated in Python's order: the callee first, then the positional
  arguments from left to right, then the keyword arguments from left to right, then the
  call. The first error ends the evaluation.
\<close>

function eval ::
    "('h, 'e, 'w) engine \<Rightarrow> expr \<Rightarrow> ('h, 'e, 'w) state
       \<Rightarrow> ('e exn + 'h val) \<times> ('h, 'e, 'w) state"
  and eval_args ::
    "('h, 'e, 'w) engine \<Rightarrow> expr list \<Rightarrow> ('h, 'e, 'w) state
       \<Rightarrow> ('e exn + 'h val list) \<times> ('h, 'e, 'w) state"
  and eval_keywords ::
    "('h, 'e, 'w) engine \<Rightarrow> keyword list \<Rightarrow> ('h, 'e, 'w) state
       \<Rightarrow> ('e exn + (string \<times> 'h val) list) \<times> ('h, 'e, 'w) state"
where
  "eval eng (Name x) s =
     (case env s x of None \<Rightarrow> (Inl (NameError x), s) | Some v \<Rightarrow> (Inr v, s))"
| "eval eng (Attribute e a) s =
     (case eval eng e s of
        (Inl x, s1) \<Rightarrow> (Inl x, s1)
      | (Inr v, s1) \<Rightarrow> ask eng (ReqGetAttr v a) s1)"
| "eval eng (Call f args kws) s =
     (case eval eng f s of
        (Inl x, s1) \<Rightarrow> (Inl x, s1)
      | (Inr fv, s1) \<Rightarrow>
          (case eval_args eng args s1 of
             (Inl x, s2) \<Rightarrow> (Inl x, s2)
           | (Inr vs, s2) \<Rightarrow>
               (case eval_keywords eng kws s2 of
                  (Inl x, s3) \<Rightarrow> (Inl x, s3)
                | (Inr kvs, s3) \<Rightarrow> ask eng (ReqCall fv vs kvs) s3)))"
| "eval eng (IntLit n) s = (Inr (VInt n), s)"
| "eval eng (FloatLit m e) s = (Inr (VFloat (float_value m e)), s)"
| "eval eng (StrLit str) s = (Inr (VStr str), s)"
| "eval eng (BoolLit b) s = (Inr (VBool b), s)"
| "eval eng (ListLit es) s =
     (case eval_args eng es s of
        (Inl x, s1) \<Rightarrow> (Inl x, s1)
      | (Inr vs, s1) \<Rightarrow> (Inr (VList vs), s1))"
| "eval_args eng [] s = (Inr [], s)"
| "eval_args eng (e # es) s =
     (case eval eng e s of
        (Inl x, s1) \<Rightarrow> (Inl x, s1)
      | (Inr v, s1) \<Rightarrow>
          (case eval_args eng es s1 of
             (Inl x, s2) \<Rightarrow> (Inl x, s2)
           | (Inr vs, s2) \<Rightarrow> (Inr (v # vs), s2)))"
| "eval_keywords eng [] s = (Inr [], s)"
| "eval_keywords eng (Keyword k e # kws) s =
     (case eval eng e s of
        (Inl x, s1) \<Rightarrow> (Inl x, s1)
      | (Inr v, s1) \<Rightarrow>
          (case eval_keywords eng kws s1 of
             (Inl x, s2) \<Rightarrow> (Inl x, s2)
           | (Inr kvs, s2) \<Rightarrow> (Inr ((k, v) # kvs), s2)))"
  by pat_completeness auto
termination
  by (relation "measure (\<lambda>x. case x of
        Inl (_, e, _) \<Rightarrow> size e
      | Inr (Inl (_, es, _)) \<Rightarrow> size_list size es
      | Inr (Inr (_, kws, _)) \<Rightarrow> size_list size kws)") auto

text \<open>
  Statements run in order and the first error ends the block, unless a \<^verbatim>\<open>try\<close> encloses
  it: then the handler runs in the state the error left. The result is the pending
  error, if any, and the final state.
\<close>

function exec ::
    "('h, 'e, 'w) engine \<Rightarrow> stmt \<Rightarrow> ('h, 'e, 'w) state
       \<Rightarrow> 'e exn option \<times> ('h, 'e, 'w) state"
  and exec_block ::
    "('h, 'e, 'w) engine \<Rightarrow> stmt list \<Rightarrow> ('h, 'e, 'w) state
       \<Rightarrow> 'e exn option \<times> ('h, 'e, 'w) state"
where
  "exec eng (Import pkg subs) s =
     (case ask eng (ReqImport pkg subs) s of
        (Inl x, s1) \<Rightarrow> (Some x, s1)
      | (Inr v, s1) \<Rightarrow> (None, s1\<lparr>env := (env s1)(pkg \<mapsto> v)\<rparr>))"
| "exec eng (Assign y e) s =
     (case eval eng e s of
        (Inl x, s1) \<Rightarrow> (Some x, s1)
      | (Inr v, s1) \<Rightarrow> (None, s1\<lparr>env := (env s1)(y \<mapsto> v)\<rparr>))"
| "exec eng (Expr e) s =
     (case eval eng e s of
        (Inl x, s1) \<Rightarrow> (Some x, s1)
      | (Inr v, s1) \<Rightarrow> (None, s1))"
| "exec eng (Try body handler) s =
     (case exec_block eng body s of
        (Some x, s1) \<Rightarrow> exec_block eng handler s1
      | (None, s1) \<Rightarrow> (None, s1))"
| "exec_block eng [] s = (None, s)"
| "exec_block eng (st # sts) s =
     (case exec eng st s of
        (Some x, s1) \<Rightarrow> (Some x, s1)
      | (None, s1) \<Rightarrow> exec_block eng sts s1)"
  by pat_completeness auto
termination
  by (relation "measure (\<lambda>x. case x of
        Inl (_, st, _) \<Rightarrow> size st
      | Inr (_, sts, _) \<Rightarrow> size_list size sts)") auto

text \<open>A module runs from an empty namespace and an empty trace.\<close>

definition run_module ::
  "('h, 'e, 'w) engine \<Rightarrow> stmt list \<Rightarrow> 'w
     \<Rightarrow> 'e exn option \<times> ('h, 'e, 'w) state" where
  "run_module eng prog w = exec_block eng prog \<lparr>env = Map.empty, world = w, trace = []\<rparr>"


section \<open>The recording engine\<close>

text \<open>
  The recording engine answers every request and names each answer by where it came
  from: a package by its name, an attribute by the object it was read from, the result
  of a call by the number of calls made before it. Running the script against it shows
  which requests the script makes, with which arguments, and where each argument came
  from.
\<close>

datatype sym = Package string | Member sym string | Result nat | Opaque

fun recorder :: "(sym, unit, nat) engine" where
  "recorder (ReqImport pkg subs) n = (Inr (VObj (Package pkg)), n)"
| "recorder (ReqGetAttr (VObj h) a) n = (Inr (VObj (Member h a)), n)"
| "recorder (ReqGetAttr v a) n = (Inr (VObj Opaque), n)"
| "recorder (ReqCall f args kws) n = (Inr (VObj (Result n)), Suc n)"

fun is_call :: "'h request \<Rightarrow> bool" where
  "is_call (ReqCall f args kws) = True"
| "is_call r = False"

definition recorded :: "stmt list \<Rightarrow> (sym, unit) event list" where
  "recorded prog = trace (snd (run_module recorder prog 0))"

definition issued :: "stmt list \<Rightarrow> sym request list" where
  "issued prog = filter is_call (map fst (recorded prog))"

text \<open>\<open>hoomd path\<close> is the object the dotted name \<^verbatim>\<open>hoomd.path\<close> denotes.\<close>

definition hoomd :: "string list \<Rightarrow> sym val" where
  "hoomd path = VObj (foldl Member (Package ''hoomd'') path)"

text \<open>\<open>inside p h\<close>: the object \<open>h\<close> is \<open>p\<close> or was read, attribute by attribute, from \<open>p\<close>.\<close>

fun inside :: "sym \<Rightarrow> sym \<Rightarrow> bool" where
  "inside p (Member h a) = (Member h a = p \<or> inside p h)"
| "inside p h = (h = p)"

fun calls_into :: "string list \<Rightarrow> sym request \<Rightarrow> bool" where
  "calls_into path (ReqCall (VObj h) args kws) =
     inside (foldl Member (Package ''hoomd'') path) h"
| "calls_into path r = False"

text \<open>The call that produced a value, among the calls issued.\<close>

fun producer :: "sym request list \<Rightarrow> sym val \<Rightarrow> sym request option" where
  "producer cs (VObj (Result n)) = (if n < length cs then Some (cs ! n) else None)"
| "producer cs v = None"

text \<open>Reading a call apart: its callee, its positional arguments, one keyword argument.\<close>

fun callee :: "'h request \<Rightarrow> 'h val option" where
  "callee (ReqCall f args kws) = Some f"
| "callee r = None"

fun positional :: "'h request \<Rightarrow> 'h val list" where
  "positional (ReqCall f args kws) = args"
| "positional r = []"

fun keyword_value :: "string \<Rightarrow> 'h request \<Rightarrow> 'h val option" where
  "keyword_value k (ReqCall f args kws) = map_of kws k"
| "keyword_value k r = None"


section \<open>Outcomes of a run\<close>

text \<open>
  An event of the trace succeeded when the engine answered with a value. A trace is
  consistent with the outcome of a run when every request before the last one
  succeeded and, if the run ended with an error of the engine, that error is the answer
  to the last request; a run that ended in any other way has no failed request at all.
\<close>

fun succeeded :: "('h, 'e) event \<Rightarrow> bool" where
  "succeeded (req, Inr v) = True"
| "succeeded (req, Inl e) = False"

fun pending :: "'x + 'a \<Rightarrow> 'x option" where
  "pending (Inl x) = Some x"
| "pending (Inr v) = None"

fun consistent :: "('h, 'e) event list \<Rightarrow> 'e exn option \<Rightarrow> bool" where
  "consistent evs (Some (External e)) =
     (evs \<noteq> [] \<and> snd (last evs) = Inl e \<and> list_all succeeded (butlast evs))"
| "consistent evs r = list_all succeeded evs"

text \<open>
  A statement is handler-free when it is not a \<^verbatim>\<open>try\<close>. \<open>bound_in B e\<close> says that every
  name the expression reads is in \<open>B\<close>; \<open>straight_line B prog\<close> says that \<open>prog\<close> is a
  sequence of imports, assignments and expression statements, none of them a \<^verbatim>\<open>try\<close>,
  each reading only names of \<open>B\<close> or names an earlier statement of \<open>prog\<close> has bound.
\<close>

fun handler_free :: "stmt \<Rightarrow> bool" where
  "handler_free (Try body handler) = False"
| "handler_free st = True"

fun bound_in :: "string list \<Rightarrow> expr \<Rightarrow> bool"
  and bound_in_keyword :: "string list \<Rightarrow> keyword \<Rightarrow> bool" where
  "bound_in B (Name x) = (x \<in> set B)"
| "bound_in B (Attribute e a) = bound_in B e"
| "bound_in B (Call f args kws) =
     (bound_in B f \<and> list_all (bound_in B) args \<and> list_all (bound_in_keyword B) kws)"
| "bound_in B (IntLit n) = True"
| "bound_in B (FloatLit m e) = True"
| "bound_in B (StrLit str) = True"
| "bound_in B (BoolLit b) = True"
| "bound_in B (ListLit es) = list_all (bound_in B) es"
| "bound_in_keyword B (Keyword k e) = bound_in B e"

fun straight_line :: "string list \<Rightarrow> stmt list \<Rightarrow> bool" where
  "straight_line B [] = True"
| "straight_line B (Import pkg subs # sts) = straight_line (pkg # B) sts"
| "straight_line B (Assign y e # sts) = (bound_in B e \<and> straight_line (y # B) sts)"
| "straight_line B (Expr e # sts) = (bound_in B e \<and> straight_line B sts)"
| "straight_line B (Try body handler # sts) = False"

text \<open>
  An engine for testing failures: it answers as the recording engine does, but raises
  \<open>err\<close> at request number \<open>k\<close> (counted from 0). Its world is the number of requests
  seen and the recording engine's count of calls.
\<close>

definition failing_at :: "nat \<Rightarrow> 'e \<Rightarrow> (sym, 'e, nat \<times> nat) engine" where
  "failing_at k err req w =
     (case w of
        (i, n) \<Rightarrow>
          if i = k then (Inl err, (Suc i, n))
          else (case recorder req n of
                  (Inl u, n') \<Rightarrow> (Inl err, (Suc i, n'))
                | (Inr v, n') \<Rightarrow> (Inr v, (Suc i, n'))))"


section \<open>Observations on the recorded run\<close>

text \<open>
  A numeric argument read as a whole number of time steps: an integer, or a float whose
  value is integral. An integer of magnitude at most \<open>2 ^ 53\<close> is a binary64 number, so
  such a float literal is that integer exactly. \<open>intervals steps period\<close> is the number of
  whole periods in a run of \<open>steps\<close> steps when the period divides the run length.
\<close>

fun whole :: "'h val \<Rightarrow> int option" where
  "whole (VInt n) = Some n"
| "whole (VFloat q) = (if q = of_int \<lfloor>q\<rfloor> then Some \<lfloor>q\<rfloor> else None)"
| "whole v = None"

definition binary64_integer :: "int \<Rightarrow> bool" where
  "binary64_integer n = (\<bar>n\<bar> \<le> 2 ^ 53)"

definition intervals :: "int \<Rightarrow> int \<Rightarrow> int option" where
  "intervals steps period =
     (if 0 < period \<and> steps mod period = 0 then Some (steps div period) else None)"

text \<open>
  The stages the specification names, in its order: initialize context, build lattice,
  define potential, define integrator, define output writers, run. A call belongs to the
  stage of the part of the library it goes into; a method call on an object that an
  earlier call returned (\<open>calls_on n\<close>, for call number \<open>n\<close>) belongs to the stage of
  that call. \<open>is_call_stmt\<close> holds of a statement whose expression is a call.
\<close>

datatype stage =
  InitContext | BuildLattice | DefinePotential | DefineIntegrator | DefineWriters | RunSteps

fun stage_rank :: "stage \<Rightarrow> nat" where
  "stage_rank InitContext = 0"
| "stage_rank BuildLattice = 1"
| "stage_rank DefinePotential = 2"
| "stage_rank DefineIntegrator = 3"
| "stage_rank DefineWriters = 4"
| "stage_rank RunSteps = 5"

fun root :: "sym \<Rightarrow> sym" where
  "root (Member h a) = root h"
| "root h = h"

fun calls_on :: "nat \<Rightarrow> sym request \<Rightarrow> bool" where
  "calls_on n (ReqCall (VObj h) args kws) = (root h = Result n)"
| "calls_on n r = False"

definition stage_of :: "stage option list \<Rightarrow> sym request \<Rightarrow> stage option" where
  "stage_of earlier c =
     (if calls_into [''context''] c then Some InitContext
      else if calls_into [''lattice''] c \<or> calls_into [''init''] c then Some BuildLattice
      else if calls_into [''md'', ''nlist''] c \<or> calls_into [''md'', ''pair''] c
        then Some DefinePotential
      else if calls_into [''group''] c \<or> calls_into [''md'', ''integrate''] c
        then Some DefineIntegrator
      else if calls_into [''analyze''] c \<or> calls_into [''dump''] c then Some DefineWriters
      else if calls_into [''run''] c then Some RunSteps
      else (case callee c of
              Some (VObj h) \<Rightarrow>
                (case root h of
                   Result n \<Rightarrow> (if n < length earlier then earlier ! n else None)
                 | _ \<Rightarrow> None)
            | _ \<Rightarrow> None))"

fun stages_from :: "stage option list \<Rightarrow> sym request list \<Rightarrow> stage option list" where
  "stages_from earlier [] = earlier"
| "stages_from earlier (c # cs) = stages_from (earlier @ [stage_of earlier c]) cs"

definition stages :: "sym request list \<Rightarrow> stage option list" where
  "stages cs = stages_from [] cs"

fun is_call_stmt :: "stmt \<Rightarrow> bool" where
  "is_call_stmt (Assign y (Call f args kws)) = True"
| "is_call_stmt (Expr (Call f args kws)) = True"
| "is_call_stmt st = False"

text \<open>
  What a run does with a handle: pass it as a keyword or positional argument of a call
  (possibly inside a list), read an attribute of it, or call it.
\<close>

datatype use = Passed string | PassedAt nat | Read string | Called

fun mentions :: "sym \<Rightarrow> sym val \<Rightarrow> bool" where
  "mentions h (VObj g) = (g = h)"
| "mentions h (VList vs) = list_ex (mentions h) vs"
| "mentions h v = False"

fun uses :: "sym \<Rightarrow> sym request \<Rightarrow> use list" where
  "uses h (ReqImport pkg subs) = []"
| "uses h (ReqGetAttr v a) = (if v = VObj h then [Read a] else [])"
| "uses h (ReqCall f args kws) =
     (if f = VObj h then [Called] else [])
     @ map (PassedAt \<circ> fst) (filter (mentions h \<circ> snd) (enumerate 0 args))
     @ map (Passed \<circ> fst) (filter (mentions h \<circ> snd) kws)"

definition handle_uses :: "sym \<Rightarrow> (sym, unit) event list \<Rightarrow> use list" where
  "handle_uses h tr = concat (map (uses h \<circ> fst) tr)"

fun is_argument :: "use \<Rightarrow> bool" where
  "is_argument (Passed k) = True"
| "is_argument (PassedAt i) = True"
| "is_argument u = False"

text \<open>
  The strings a call hands to the engine, and the requests that are addressed to the
  engine: an import of the package \<^verbatim>\<open>hoomd\<close>, or an attribute read or call on an object
  that came from that package or from one of its calls.
\<close>

fun is_import :: "'h request \<Rightarrow> bool" where
  "is_import (ReqImport pkg subs) = True"
| "is_import r = False"

fun strings_in :: "'h val \<Rightarrow> string list" where
  "strings_in (VStr str) = [str]"
| "strings_in (VList vs) = concat (map strings_in vs)"
| "strings_in v = []"

fun strings_passed :: "'h request \<Rightarrow> string list" where
  "strings_passed (ReqCall f args kws) =
     concat (map strings_in args) @ concat (map (strings_in \<circ> snd) kws)"
| "strings_passed r = []"

fun engine_object :: "sym \<Rightarrow> bool" where
  "engine_object (Package pkg) = (pkg = ''hoomd'')"
| "engine_object (Member h a) = engine_object h"
| "engine_object (Result n) = True"
| "engine_object Opaque = False"

fun addressed_to_engine :: "sym request \<Rightarrow> bool" where
  "addressed_to_engine (ReqImport pkg subs) = (pkg = ''hoomd'')"
| "addressed_to_engine (ReqGetAttr (VObj h) a) = engine_object h"
| "addressed_to_engine (ReqCall (VObj h) args kws) = engine_object h"
| "addressed_to_engine r = False"


section \<open>The recorded run of the script\<close>

lemma recorded_script:
  "recorded script =
    [(ReqImport ''hoomd'' [], Inr (hoomd [])),
     (ReqImport ''hoomd'' [''md''], Inr (hoomd [])),
     (ReqGetAttr (hoomd []) ''context'', Inr (hoomd [''context''])),
     (ReqGetAttr (hoomd [''context'']) ''initialize'', Inr (hoomd [''context'', ''initialize''])),
     (ReqCall (hoomd [''context'', ''initialize'']) [] [], Inr (VObj (Result 0))),
     (ReqGetAttr (hoomd []) ''init'', Inr (hoomd [''init''])),
     (ReqGetAttr (hoomd [''init'']) ''create_lattice'', Inr (hoomd [''init'', ''create_lattice''])),
     (ReqGetAttr (hoomd []) ''lattice'', Inr (hoomd [''lattice''])),
     (ReqGetAttr (hoomd [''lattice'']) ''sc'', Inr (hoomd [''lattice'', ''sc''])),
     (ReqCall (hoomd [''lattice'', ''sc'']) [] [(''a'', VFloat 2)], Inr (VObj (Result 1))),
     (ReqCall (hoomd [''init'', ''create_lattice'']) []
        [(''unitcell'', VObj (Result 1)), (''n'', VInt 5)], Inr (VObj (Result 2))),
     (ReqGetAttr (hoomd []) ''md'', Inr (hoomd [''md''])),
     (ReqGetAttr (hoomd [''md'']) ''nlist'', Inr (hoomd [''md'', ''nlist''])),
     (ReqGetAttr (hoomd [''md'', ''nlist'']) ''cell'', Inr (hoomd [''md'', ''nlist'', ''cell''])),
     (ReqCall (hoomd [''md'', ''nlist'', ''cell'']) [] [], Inr (VObj (Result 3))),
     (ReqGetAttr (hoomd []) ''md'', Inr (hoomd [''md''])),
     (ReqGetAttr (hoomd [''md'']) ''pair'', Inr (hoomd [''md'', ''pair''])),
     (ReqGetAttr (hoomd [''md'', ''pair'']) ''lj'', Inr (hoomd [''md'', ''pair'', ''lj''])),
     (ReqCall (hoomd [''md'', ''pair'', ''lj'']) []
        [(''r_cut'', VFloat 2.5), (''nlist'', VObj (Result 3))], Inr (VObj (Result 4))),
     (ReqGetAttr (VObj (Result 4)) ''pair_coeff'', Inr (VObj (Member (Result 4) ''pair_coeff''))),
     (ReqGetAttr (VObj (Member (Result 4) ''pair_coeff'')) ''set'',
        Inr (VObj (Member (Member (Result 4) ''pair_coeff'') ''set''))),
     (ReqCall (VObj (Member (Member (Result 4) ''pair_coeff'') ''set''))
        [VStr ''A'', VStr ''A''] [(''epsilon'', VFloat 1), (''sigma'', VFloat 1)],
        Inr (VObj (Result 5))),
     (ReqGetAttr (hoomd []) ''group'', Inr (hoomd [''group''])),
     (ReqGetAttr (hoomd [''group'']) ''all'', Inr (hoomd [''group'', ''all''])),
     (ReqCall (hoomd [''group'', ''all'']) [] [], Inr (VObj (Result 6))),
     (ReqGetAttr (hoomd []) ''md'', Inr (hoomd [''md''])),
     (ReqGetAttr (hoomd [''md'']) ''integrate'', Inr (hoomd [''md'', ''integrate''])),
     (ReqGetAttr (hoomd [''md'', ''integrate'']) ''mode_standard'',
        Inr (hoomd [''md'', ''integrate'', ''mode_standard''])),
     (ReqCall (hoomd [''md'', ''integrate'', ''mode_standard'']) [] [(''dt'', VFloat 0.005)],
        Inr (VObj (Result 7))),
     (ReqGetAttr (hoomd []) ''md'', Inr (hoomd [''md''])),
     (ReqGetAttr (hoomd [''md'']) ''integrate'', Inr (hoomd [''md'', ''integrate''])),
     (ReqGetAttr (hoomd [''md'', ''integrate'']) ''langevin'',
        Inr (hoomd [''md'', ''integrate'', ''langevin''])),
     (ReqCall (hoomd [''md'', ''integrate'', ''langevin'']) []
        [(''group'', VObj (Result 6)), (''kT'', VFloat 0.2), (''seed'', VInt 42)],
        Inr (VObj (Result 8))),
     (ReqGetAttr (hoomd []) ''analyze'', Inr (hoomd [''analyze''])),
     (ReqGetAttr (hoomd [''analyze'']) ''log'', Inr (hoomd [''analyze'', ''log''])),
     (ReqCall (hoomd [''analyze'', ''log'']) []
        [(''filename'', VStr ''log-output.log''),
         (''quantities'', VList [VStr ''potential_energy'']),
         (''period'', VInt 100), (''overwrite'', VBool True)], Inr (VObj (Result 9))),
     (ReqGetAttr (hoomd []) ''dump'', Inr (hoomd [''dump''])),
     (ReqGetAttr (hoomd [''dump'']) ''gsd'', Inr (hoomd [''dump'', ''gsd''])),
     (ReqCall (hoomd [''dump'', ''gsd'']) [VStr ''trajectory.gsd'']
        [(''period'', VFloat 2000), (''group'', VObj (Result 6)), (''overwrite'', VBool True)],
        Inr (VObj (Result 10))),
     (ReqGetAttr (hoomd []) ''run'', Inr (hoomd [''run''])),
     (ReqCall (hoomd [''run'']) [VFloat 10000] [], Inr (VObj (Result 11)))]"
  by (simp add: recorded_def run_module_def script_def ask_def float_value_def hoomd_def)

lemma issued_script:
  "issued script =
    [ReqCall (hoomd [''context'', ''initialize'']) [] [],
     ReqCall (hoomd [''lattice'', ''sc'']) [] [(''a'', VFloat 2)],
     ReqCall (hoomd [''init'', ''create_lattice'']) []
       [(''unitcell'', VObj (Result 1)), (''n'', VInt 5)],
     ReqCall (hoomd [''md'', ''nlist'', ''cell'']) [] [],
     ReqCall (hoomd [''md'', ''pair'', ''lj'']) []
       [(''r_cut'', VFloat 2.5), (''nlist'', VObj (Result 3))],
     ReqCall (VObj (Member (Member (Result 4) ''pair_coeff'') ''set''))
       [VStr ''A'', VStr ''A''] [(''epsilon'', VFloat 1), (''sigma'', VFloat 1)],
     ReqCall (hoomd [''group'', ''all'']) [] [],
     ReqCall (hoomd [''md'', ''integrate'', ''mode_standard'']) [] [(''dt'', VFloat 0.005)],
     ReqCall (hoomd [''md'', ''integrate'', ''langevin'']) []
       [(''group'', VObj (Result 6)), (''kT'', VFloat 0.2), (''seed'', VInt 42)],
     ReqCall (hoomd [''analyze'', ''log'']) []
       [(''filename'', VStr ''log-output.log''),
        (''quantities'', VList [VStr ''potential_energy'']),
        (''period'', VInt 100), (''overwrite'', VBool True)],
     ReqCall (hoomd [''dump'', ''gsd'']) [VStr ''trajectory.gsd'']
       [(''period'', VFloat 2000), (''group'', VObj (Result 6)), (''overwrite'', VBool True)],
     ReqCall (hoomd [''run'']) [VFloat 10000] []]"
  by (simp add: issued_def recorded_script)

lemma script_handler_free: "list_all handler_free script"
  by (simp add: script_def)

lemma script_straight_line: "straight_line [] script"
  by (simp add: script_def)

lemma stages_script:
  "stages (issued script) =
     map Some [InitContext, BuildLattice, BuildLattice,
       DefinePotential, DefinePotential, DefinePotential,
       DefineIntegrator, DefineIntegrator, DefineIntegrator,
       DefineWriters, DefineWriters, RunSteps]"
  by (simp add: issued_script hoomd_def stages_def stage_of_def)

lemma handle_uses_script:
  "map (\<lambda>n. handle_uses (Result n) (recorded script)) [0..<12] =
     [[], [Passed ''unitcell''], [], [Passed ''nlist''], [Read ''pair_coeff''], [],
      [Passed ''group'', Passed ''group''], [], [], [], [], []]"
  by (simp add: recorded_script hoomd_def handle_uses_def upt_rec enumerate_eq_zip)


section \<open>Errors and traces, for every engine\<close>

text \<open>
  From a state whose trace has no failed request, evaluation leaves a trace consistent
  with its outcome and does not change the namespace.
\<close>

lemma ask_consistent:
  assumes "ask eng req s = (r, s')" and "list_all succeeded (trace s)"
  shows "consistent (trace s') (pending r) \<and> env s' = env s"
  using assms by (auto simp: ask_def split: prod.splits sum.splits)

lemma ask_not_name_error: "ask eng req s = (r, s') \<Longrightarrow> r \<noteq> Inl (NameError x)"
  by (auto simp: ask_def split: prod.splits sum.splits)

lemma eval_consistent:
  "eval eng e s = (r, s') \<Longrightarrow> list_all succeeded (trace s) \<Longrightarrow>
     consistent (trace s') (pending r) \<and> env s' = env s"
  "eval_args eng es s = (rs, s') \<Longrightarrow> list_all succeeded (trace s) \<Longrightarrow>
     consistent (trace s') (pending rs) \<and> env s' = env s"
  "eval_keywords eng kws s = (rk, s') \<Longrightarrow> list_all succeeded (trace s) \<Longrightarrow>
     consistent (trace s') (pending rk) \<and> env s' = env s"
proof (induction eng e s and eng es s and eng kws s arbitrary: r s' and rs s' and rk s'
    rule: eval_eval_args_eval_keywords.induct)
  case (1 eng x s)
  then show ?case by (auto split: option.splits)
next
  case (2 eng e a s)
  obtain r1 s1 where e1: "eval eng e s = (r1, s1)" by (cases "eval eng e s")
  note ih = "2.IH"[OF e1 "2.prems"(2)]
  show ?case
  proof (cases r1)
    case (Inl x)
    with e1 "2.prems"(1) have "r = Inl x" "s' = s1" by simp_all
    with ih Inl show ?thesis by simp
  next
    case (Inr v)
    with e1 "2.prems"(1) have a: "ask eng (ReqGetAttr v a) s1 = (r, s')" by simp
    from ih Inr have "list_all succeeded (trace s1)" "env s1 = env s" by simp_all
    with ask_consistent[OF a] show ?thesis by simp
  qed
next
  case (3 eng f args kws s)
  obtain r1 s1 where e1: "eval eng f s = (r1, s1)" by (cases "eval eng f s")
  note ih1 = "3.IH"(1)[OF e1 "3.prems"(2)]
  show ?case
  proof (cases r1)
    case (Inl x)
    with e1 "3.prems"(1) have "r = Inl x" "s' = s1" by simp_all
    with ih1 Inl show ?thesis by simp
  next
    case f: (Inr fv)
    with ih1 have ok1: "list_all succeeded (trace s1)" and env1: "env s1 = env s"
      by simp_all
    obtain r2 s2 where e2: "eval_args eng args s1 = (r2, s2)"
      by (cases "eval_args eng args s1")
    note ih2 = "3.IH"(2)[OF e1[symmetric] f e2 ok1]
    show ?thesis
    proof (cases r2)
      case (Inl x)
      with e1 f e2 "3.prems"(1) have "r = Inl x" "s' = s2" by simp_all
      with ih2 Inl env1 show ?thesis by simp
    next
      case a: (Inr vs)
      with ih2 env1 have ok2: "list_all succeeded (trace s2)" and env2: "env s2 = env s"
        by simp_all
      obtain r3 s3 where e3: "eval_keywords eng kws s2 = (r3, s3)"
        by (cases "eval_keywords eng kws s2")
      note ih3 = "3.IH"(3)[OF e1[symmetric] f e2[symmetric] a e3 ok2]
      show ?thesis
      proof (cases r3)
        case (Inl x)
        with e1 f e2 a e3 "3.prems"(1) have "r = Inl x" "s' = s3" by simp_all
        with ih3 Inl env2 show ?thesis by simp
      next
        case k: (Inr kvs)
        with ih3 env2 have ok3: "list_all succeeded (trace s3)" and env3: "env s3 = env s"
          by simp_all
        from e1 f e2 a e3 k "3.prems"(1) have q: "ask eng (ReqCall fv vs kvs) s3 = (r, s')"
          by simp
        from ask_consistent[OF q ok3] env3 show ?thesis by simp
      qed
    qed
  qed
next
  case (4 eng n s)
  then show ?case by auto
next
  case (5 eng m e s)
  then show ?case by auto
next
  case (6 eng str s)
  then show ?case by auto
next
  case (7 eng b s)
  then show ?case by auto
next
  case (8 eng es s)
  obtain r1 s1 where e1: "eval_args eng es s = (r1, s1)" by (cases "eval_args eng es s")
  note ih = "8.IH"[OF e1 "8.prems"(2)]
  from e1 "8.prems"(1) have "s' = s1" "pending r = pending r1"
    by (auto split: sum.splits)
  with ih show ?case by simp
next
  case (9 eng s)
  then show ?case by auto
next
  case (10 eng e es s)
  obtain r1 s1 where e1: "eval eng e s = (r1, s1)" by (cases "eval eng e s")
  note ih1 = "10.IH"(1)[OF e1 "10.prems"(2)]
  show ?case
  proof (cases r1)
    case (Inl x)
    with e1 "10.prems"(1) have "rs = Inl x" "s' = s1" by simp_all
    with ih1 Inl show ?thesis by simp
  next
    case v: (Inr v)
    with ih1 have ok1: "list_all succeeded (trace s1)" and env1: "env s1 = env s"
      by simp_all
    obtain r2 s2 where e2: "eval_args eng es s1 = (r2, s2)"
      by (cases "eval_args eng es s1")
    note ih2 = "10.IH"(2)[OF e1[symmetric] v e2 ok1]
    from e1 v e2 "10.prems"(1) have "s' = s2" "pending rs = pending r2"
      by (auto split: sum.splits)
    with ih2 env1 show ?thesis by simp
  qed
next
  case (11 eng s)
  then show ?case by auto
next
  case (12 eng k e kws s)
  obtain r1 s1 where e1: "eval eng e s = (r1, s1)" by (cases "eval eng e s")
  note ih1 = "12.IH"(1)[OF e1 "12.prems"(2)]
  show ?case
  proof (cases r1)
    case (Inl x)
    with e1 "12.prems"(1) have "rk = Inl x" "s' = s1" by simp_all
    with ih1 Inl show ?thesis by simp
  next
    case v: (Inr v)
    with ih1 have ok1: "list_all succeeded (trace s1)" and env1: "env s1 = env s"
      by simp_all
    obtain r2 s2 where e2: "eval_keywords eng kws s1 = (r2, s2)"
      by (cases "eval_keywords eng kws s1")
    note ih2 = "12.IH"(2)[OF e1[symmetric] v e2 ok1]
    from e1 v e2 "12.prems"(1) have "s' = s2" "pending rk = pending r2"
      by (auto split: sum.splits)
    with ih2 env1 show ?thesis by simp
  qed
qed

lemma exec_consistent:
  assumes "handler_free st" and "exec eng st s = (r, s')" and "list_all succeeded (trace s)"
  shows "consistent (trace s') r"
proof (cases st)
  case (Import pkg subs)
  obtain r1 s1 where a: "ask eng (ReqImport pkg subs) s = (r1, s1)"
    by (cases "ask eng (ReqImport pkg subs) s")
  from ask_consistent[OF a assms(3)] a assms(2) Import show ?thesis
    by (cases r1) auto
next
  case (Assign y e)
  obtain r1 s1 where a: "eval eng e s = (r1, s1)" by (cases "eval eng e s")
  from eval_consistent(1)[OF a assms(3)] a assms(2) Assign show ?thesis
    by (cases r1) auto
next
  case (Expr e)
  obtain r1 s1 where a: "eval eng e s = (r1, s1)" by (cases "eval eng e s")
  from eval_consistent(1)[OF a assms(3)] a assms(2) Expr show ?thesis
    by (cases r1) auto
next
  case (Try body handler)
  with assms(1) show ?thesis by simp
qed

lemma exec_block_consistent:
  "list_all handler_free sts \<Longrightarrow> exec_block eng sts s = (r, s') \<Longrightarrow>
   list_all succeeded (trace s) \<Longrightarrow> consistent (trace s') r"
proof (induction sts arbitrary: s)
  case Nil
  then show ?case by simp
next
  case (Cons st sts)
  obtain r1 s1 where a: "exec eng st s = (r1, s1)" by (cases "exec eng st s")
  from Cons.prems(1) have hf: "handler_free st" "list_all handler_free sts" by simp_all
  note c1 = exec_consistent[OF hf(1) a Cons.prems(3)]
  show ?case
  proof (cases r1)
    case None
    with a Cons.prems(2) have "exec_block eng sts s1 = (r, s')" by simp
    moreover from c1 None have "list_all succeeded (trace s1)" by simp
    ultimately show ?thesis using Cons.IH hf(2) by blast
  next
    case (Some x)
    with a Cons.prems(2) have "r = Some x" "s' = s1" by simp_all
    with c1 Some show ?thesis by simp
  qed
qed

lemma consistent_butlast: "consistent evs r \<Longrightarrow> list_all succeeded (butlast evs)"
  by (cases "(evs, r)" rule: consistent.cases) (auto simp: list_all_iff dest: in_set_butlastD)

lemma all_succeeded_last:
  assumes "list_all succeeded evs"
  shows "\<not> (evs \<noteq> [] \<and> snd (last evs) = Inl e)"
proof -
  have "evs \<noteq> [] \<Longrightarrow> succeeded (last evs)"
    using assms by (simp add: list_all_iff)
  then show ?thesis by (cases "last evs") auto
qed

lemma consistent_External:
  assumes "consistent evs r"
  shows "(r = Some (External e)) = (evs \<noteq> [] \<and> snd (last evs) = Inl e)"
proof (cases r)
  case None
  with assms have "list_all succeeded evs" by simp
  from all_succeeded_last[OF this] None show ?thesis by simp
next
  case (Some y)
  show ?thesis
  proof (cases y)
    case (External e')
    with Some assms show ?thesis by auto
  next
    case (NameError n)
    with Some assms have "list_all succeeded evs" by simp
    from all_succeeded_last[OF this] Some NameError show ?thesis by simp
  qed
qed

text \<open>
  A straight-line program that reads only bound names never raises \<open>NameError\<close>, whatever
  the engine answers.
\<close>

lemma eval_closed:
  "eval eng e s = (r, s') \<Longrightarrow> list_all succeeded (trace s) \<Longrightarrow> bound_in B e \<Longrightarrow>
     set B \<subseteq> dom (env s) \<Longrightarrow> r \<noteq> Inl (NameError x)"
  "eval_args eng es s = (rs, s') \<Longrightarrow> list_all succeeded (trace s) \<Longrightarrow>
     list_all (bound_in B) es \<Longrightarrow> set B \<subseteq> dom (env s) \<Longrightarrow> rs \<noteq> Inl (NameError x)"
  "eval_keywords eng kws s = (rk, s') \<Longrightarrow> list_all succeeded (trace s) \<Longrightarrow>
     list_all (bound_in_keyword B) kws \<Longrightarrow> set B \<subseteq> dom (env s) \<Longrightarrow>
     rk \<noteq> Inl (NameError x)"
proof (induction eng e s and eng es s and eng kws s arbitrary: r s' and rs s' and rk s'
    rule: eval_eval_args_eval_keywords.induct)
  case (1 eng y s)
  then show ?case by (auto split: option.splits)
next
  case (2 eng e a s)
  obtain r1 s1 where e1: "eval eng e s = (r1, s1)" by (cases "eval eng e s")
  from "2.prems"(3) have b: "bound_in B e" by simp
  note ih = "2.IH"[OF e1 "2.prems"(2) b "2.prems"(4)]
  show ?case
  proof (cases r1)
    case (Inl y)
    with e1 "2.prems"(1) have "r = r1" by simp
    with ih show ?thesis by simp
  next
    case (Inr v)
    with e1 "2.prems"(1) have "ask eng (ReqGetAttr v a) s1 = (r, s')" by simp
    then show ?thesis by (rule ask_not_name_error)
  qed
next
  case (3 eng f args kws s)
  from "3.prems"(3) have b: "bound_in B f" "list_all (bound_in B) args"
      "list_all (bound_in_keyword B) kws" by simp_all
  obtain r1 s1 where e1: "eval eng f s = (r1, s1)" by (cases "eval eng f s")
  note ih1 = "3.IH"(1)[OF e1 "3.prems"(2) b(1) "3.prems"(4)]
  note c1 = eval_consistent(1)[OF e1 "3.prems"(2)]
  show ?case
  proof (cases r1)
    case (Inl y)
    with e1 "3.prems"(1) have "r = r1" by simp
    with ih1 show ?thesis by simp
  next
    case f: (Inr fv)
    with c1 have ok1: "list_all succeeded (trace s1)" and env1: "env s1 = env s"
      by simp_all
    from env1 "3.prems"(4) have d1: "set B \<subseteq> dom (env s1)" by simp
    obtain r2 s2 where e2: "eval_args eng args s1 = (r2, s2)"
      by (cases "eval_args eng args s1")
    note ih2 = "3.IH"(2)[OF e1[symmetric] f e2 ok1 b(2) d1]
    note c2 = eval_consistent(2)[OF e2 ok1]
    show ?thesis
    proof (cases r2)
      case (Inl y)
      with e1 f e2 "3.prems"(1) have "r = Inl y" by simp
      with ih2 Inl show ?thesis by simp
    next
      case a: (Inr vs)
      with c2 env1 have ok2: "list_all succeeded (trace s2)" and env2: "env s2 = env s"
        by simp_all
      from env2 "3.prems"(4) have d2: "set B \<subseteq> dom (env s2)" by simp
      obtain r3 s3 where e3: "eval_keywords eng kws s2 = (r3, s3)"
        by (cases "eval_keywords eng kws s2")
      note ih3 = "3.IH"(3)[OF e1[symmetric] f e2[symmetric] a e3 ok2 b(3) d2]
      show ?thesis
      proof (cases r3)
        case (Inl y)
        with e1 f e2 a e3 "3.prems"(1) have "r = Inl y" by simp
        with ih3 Inl show ?thesis by simp
      next
        case k: (Inr kvs)
        from e1 f e2 a e3 k "3.prems"(1) have "ask eng (ReqCall fv vs kvs) s3 = (r, s')"
          by simp
        then show ?thesis by (rule ask_not_name_error)
      qed
    qed
  qed
next
  case (4 eng n s)
  then show ?case by auto
next
  case (5 eng m e s)
  then show ?case by auto
next
  case (6 eng str s)
  then show ?case by auto
next
  case (7 eng b s)
  then show ?case by auto
next
  case (8 eng es s)
  obtain r1 s1 where e1: "eval_args eng es s = (r1, s1)" by (cases "eval_args eng es s")
  from "8.prems"(3) have b: "list_all (bound_in B) es" by simp
  note ih = "8.IH"[OF e1 "8.prems"(2) b "8.prems"(4)]
  from e1 "8.prems"(1) ih show ?case by (auto split: sum.splits)
next
  case (9 eng s)
  then show ?case by auto
next
  case (10 eng e es s)
  from "10.prems"(3) have b: "bound_in B e" "list_all (bound_in B) es" by simp_all
  obtain r1 s1 where e1: "eval eng e s = (r1, s1)" by (cases "eval eng e s")
  note ih1 = "10.IH"(1)[OF e1 "10.prems"(2) b(1) "10.prems"(4)]
  note c1 = eval_consistent(1)[OF e1 "10.prems"(2)]
  show ?case
  proof (cases r1)
    case (Inl y)
    with e1 "10.prems"(1) have "rs = Inl y" by simp
    with ih1 Inl show ?thesis by simp
  next
    case v: (Inr v)
    with c1 have ok1: "list_all succeeded (trace s1)" and env1: "env s1 = env s"
      by simp_all
    from env1 "10.prems"(4) have d1: "set B \<subseteq> dom (env s1)" by simp
    obtain r2 s2 where e2: "eval_args eng es s1 = (r2, s2)"
      by (cases "eval_args eng es s1")
    note ih2 = "10.IH"(2)[OF e1[symmetric] v e2 ok1 b(2) d1]
    from e1 v e2 "10.prems"(1) ih2 show ?thesis by (auto split: sum.splits)
  qed
next
  case (11 eng s)
  then show ?case by auto
next
  case (12 eng k e kws s)
  from "12.prems"(3) have b: "bound_in B e" "list_all (bound_in_keyword B) kws"
    by simp_all
  obtain r1 s1 where e1: "eval eng e s = (r1, s1)" by (cases "eval eng e s")
  note ih1 = "12.IH"(1)[OF e1 "12.prems"(2) b(1) "12.prems"(4)]
  note c1 = eval_consistent(1)[OF e1 "12.prems"(2)]
  show ?case
  proof (cases r1)
    case (Inl y)
    with e1 "12.prems"(1) have "rk = Inl y" by simp
    with ih1 Inl show ?thesis by simp
  next
    case v: (Inr v)
    with c1 have ok1: "list_all succeeded (trace s1)" and env1: "env s1 = env s"
      by simp_all
    from env1 "12.prems"(4) have d1: "set B \<subseteq> dom (env s1)" by simp
    obtain r2 s2 where e2: "eval_keywords eng kws s1 = (r2, s2)"
      by (cases "eval_keywords eng kws s1")
    note ih2 = "12.IH"(2)[OF e1[symmetric] v e2 ok1 b(2) d1]
    from e1 v e2 "12.prems"(1) ih2 show ?thesis by (auto split: sum.splits)
  qed
qed

lemma exec_block_closed:
  "straight_line B sts \<Longrightarrow> set B \<subseteq> dom (env s) \<Longrightarrow> list_all succeeded (trace s) \<Longrightarrow>
   exec_block eng sts s = (r, s') \<Longrightarrow> r \<noteq> Some (NameError x)"
proof (induction B sts arbitrary: s rule: straight_line.induct)
  case (1 B)
  then show ?case by simp
next
  case (2 B pkg subs sts)
  obtain r1 s1 where a: "ask eng (ReqImport pkg subs) s = (r1, s1)"
    by (cases "ask eng (ReqImport pkg subs) s")
  note c = ask_consistent[OF a "2.prems"(3)]
  show ?case
  proof (cases r1)
    case (Inl y)
    with a "2.prems"(4) have "r = Some y" by simp
    with ask_not_name_error[OF a] Inl show ?thesis by simp
  next
    case (Inr v)
    let ?s2 = "s1\<lparr>env := (env s1)(pkg \<mapsto> v)\<rparr>"
    from a Inr "2.prems"(4) have ex: "exec_block eng sts ?s2 = (r, s')" by simp
    from c Inr have ok: "list_all succeeded (trace ?s2)" by simp
    from c "2.prems"(2) have d: "set (pkg # B) \<subseteq> dom (env ?s2)" by auto
    from "2.prems"(1) have sl: "straight_line (pkg # B) sts" by simp
    from "2.IH"[OF sl d ok ex] show ?thesis .
  qed
next
  case (3 B y e sts)
  obtain r1 s1 where a: "eval eng e s = (r1, s1)" by (cases "eval eng e s")
  from "3.prems"(1) have b: "bound_in B e" and sl: "straight_line (y # B) sts" by simp_all
  note c = eval_consistent(1)[OF a "3.prems"(3)]
  note n = eval_closed(1)[OF a "3.prems"(3) b "3.prems"(2)]
  show ?case
  proof (cases r1)
    case (Inl z)
    with a "3.prems"(4) have "r = Some z" by simp
    with n Inl show ?thesis by simp
  next
    case (Inr v)
    let ?s2 = "s1\<lparr>env := (env s1)(y \<mapsto> v)\<rparr>"
    from a Inr "3.prems"(4) have ex: "exec_block eng sts ?s2 = (r, s')" by simp
    from c Inr have ok: "list_all succeeded (trace ?s2)" by simp
    from c "3.prems"(2) have d: "set (y # B) \<subseteq> dom (env ?s2)" by auto
    from "3.IH"[OF sl d ok ex] show ?thesis .
  qed
next
  case (4 B e sts)
  obtain r1 s1 where a: "eval eng e s = (r1, s1)" by (cases "eval eng e s")
  from "4.prems"(1) have b: "bound_in B e" and sl: "straight_line B sts" by simp_all
  note c = eval_consistent(1)[OF a "4.prems"(3)]
  note n = eval_closed(1)[OF a "4.prems"(3) b "4.prems"(2)]
  show ?case
  proof (cases r1)
    case (Inl z)
    with a "4.prems"(4) have "r = Some z" by simp
    with n Inl show ?thesis by simp
  next
    case (Inr v)
    from a Inr "4.prems"(4) have ex: "exec_block eng sts s1 = (r, s')" by simp
    from c Inr have ok: "list_all succeeded (trace s1)" by simp
    from c "4.prems"(2) have d: "set B \<subseteq> dom (env s1)" by auto
    from "4.IH"[OF sl d ok ex] show ?thesis .
  qed
next
  case (5 B body handler sts)
  then show ?case by simp
qed

lemma exec_block_append:
  "exec_block eng (xs @ ys) s =
     (case exec_block eng xs s of
        (Some x, s1) \<Rightarrow> (Some x, s1)
      | (None, s1) \<Rightarrow> exec_block eng ys s1)"
  by (induction xs arbitrary: s) (auto split: prod.splits option.splits)

lemma final_call_returns:
  assumes "exec_block eng [Expr (Call (Attribute (Name m) a) [FloatLit d p] [])] s = (None, s')"
  shows "\<exists>h f v. env s m = Some h \<and>
           trace s' = trace s @ [(ReqGetAttr h a, Inr f),
                                 (ReqCall f [VFloat (float_value d p)] [], Inr v)]"
  using assms
  by (auto simp: ask_def split: option.splits prod.splits sum.splits)


section \<open>The claims\<close>

text \<open>
  C1. The script requests exactly one log output: among the calls it issues, one and
  only one goes into \<^verbatim>\<open>hoomd.analyze\<close>. It is \<^verbatim>\<open>hoomd.analyze.log\<close>, with the file name
  \<^verbatim>\<open>log-output.log\<close>, the single quantity \<^verbatim>\<open>potential_energy\<close>, the period 100 and
  \<^verbatim>\<open>overwrite=True\<close>.
\<close>

theorem log_output_request:
  "filter (calls_into [''analyze'']) (issued script) =
     [ReqCall (hoomd [''analyze'', ''log'']) []
        [(''filename'', VStr ''log-output.log''),
         (''quantities'', VList [VStr ''potential_energy'']),
         (''period'', VInt 100),
         (''overwrite'', VBool True)]]"
  by (simp add: issued_script hoomd_def)

text \<open>
  C2. The script requests exactly one trajectory output: the only call into
  \<^verbatim>\<open>hoomd.dump\<close> is \<^verbatim>\<open>hoomd.dump.gsd\<close>, with the file name \<^verbatim>\<open>trajectory.gsd\<close>, the period
  \<^verbatim>\<open>2e3\<close> = 2000, \<^verbatim>\<open>overwrite=True\<close>, and as group the object returned by the seventh call
  of the script, which is \<^verbatim>\<open>hoomd.group.all()\<close>.
\<close>

theorem trajectory_output_request:
  "filter (calls_into [''dump'']) (issued script) =
     [ReqCall (hoomd [''dump'', ''gsd'']) [VStr ''trajectory.gsd'']
        [(''period'', VFloat 2000), (''group'', VObj (Result 6)), (''overwrite'', VBool True)]]
   \<and> producer (issued script) (VObj (Result 6)) = Some (ReqCall (hoomd [''group'', ''all'']) [] [])"
  by (simp add: issued_script hoomd_def)

text \<open>
  C3. The last statement of the script is the call \<^verbatim>\<open>hoomd.run(1e4)\<close>, and \<^verbatim>\<open>1e4\<close> is
  \<open>10 ^ 4\<close>; it is the only call of \<^verbatim>\<open>hoomd.run\<close> and the last call issued. Against every
  engine the requests are made one after the other, and the script completes exactly
  when no request failed; when it completes, the last two events of the trace are the
  read of the attribute \<^verbatim>\<open>run\<close> and the return of the call of what was read with the
  single argument \<open>10 ^ 4\<close>: nothing happens after the run call returns.
\<close>

theorem final_run_call:
  fixes eng :: "('h, 'e, 'w) engine"
  assumes "run_module eng script w = (r, s)"
  shows "last script = Expr (Call (Attribute (Name ''hoomd'') ''run'') [FloatLit 1 4] [])
       \<and> float_value 1 4 = 10 ^ 4
       \<and> filter (calls_into [''run'']) (issued script)
           = [ReqCall (hoomd [''run'']) [VFloat (10 ^ 4)] []]
       \<and> last (issued script) = ReqCall (hoomd [''run'']) [VFloat (10 ^ 4)] []
       \<and> (r = None) = list_all succeeded (trace s)
       \<and> (r = None \<longrightarrow>
            (\<exists>h f v tr. trace s = tr @ [(ReqGetAttr h ''run'', Inr f),
                                        (ReqCall f [VFloat (10 ^ 4)] [], Inr v)]))"
proof (intro conjI impI)
  let ?s0 = "\<lparr>env = Map.empty, world = w, trace = []\<rparr> :: ('h, 'e, 'w) state"
  let ?final = "Expr (Call (Attribute (Name ''hoomd'') ''run'') [FloatLit 1 4] [])"
  show "last script = ?final" by (simp add: script_def)
  show fv: "float_value 1 4 = 10 ^ 4" by (simp add: float_value_def)
  show "filter (calls_into [''run'']) (issued script)
           = [ReqCall (hoomd [''run'']) [VFloat (10 ^ 4)] []]"
    by (simp add: issued_script hoomd_def)
  show "last (issued script) = ReqCall (hoomd [''run'']) [VFloat (10 ^ 4)] []"
    by (simp add: issued_script)
  from assms have ex: "exec_block eng script ?s0 = (r, s)"
    by (simp only: run_module_def)
  have hf: "list_all handler_free script" by (simp add: script_def)
  have sl: "straight_line [] script" by (simp add: script_def)
  have c: "consistent (trace s) r"
    by (rule exec_block_consistent[OF hf ex]) simp
  have n: "r \<noteq> Some (NameError x)" for x
    by (rule exec_block_closed[OF sl _ _ ex]) simp_all
  show "(r = None) = list_all succeeded (trace s)"
  proof (cases r)
    case None
    with c show ?thesis by simp
  next
    case (Some y)
    with n obtain e where e: "r = Some (External e)" by (cases y) auto
    with consistent_External[OF c, of e] have "trace s \<noteq> [] \<and> snd (last (trace s)) = Inl e"
      by simp
    with all_succeeded_last[of "trace s" e] have "\<not> list_all succeeded (trace s)"
      by blast
    with e show ?thesis by simp
  qed
  assume completed: "r = None"
  have split: "script = butlast script @ [?final]" by (simp add: script_def)
  obtain r1 s1 where p: "exec_block eng (butlast script) ?s0 = (r1, s1)"
    by (cases "exec_block eng (butlast script) ?s0")
  from ex have "exec_block eng (butlast script @ [?final]) ?s0 = (r, s)"
    using split by simp
  with p completed have "exec_block eng [?final] s1 = (None, s)"
    by (cases r1) (simp_all add: exec_block_append)
  from final_call_returns[OF this] fv
  show "\<exists>h f v tr. trace s = tr @ [(ReqGetAttr h ''run'', Inr f),
                                    (ReqCall f [VFloat (10 ^ 4)] [], Inr v)]"
    by auto
qed

theorem final_run_call_witness:
  "fst (run_module recorder script 0) = None
   \<and> list_all succeeded (recorded script)
   \<and> (\<exists>h f v tr. recorded script = tr @ [(ReqGetAttr h ''run'', Inr f),
                                          (ReqCall f [VFloat (10 ^ 4)] [], Inr v)])"
proof -
  let ?run = "run_module recorder script 0"
  have r: "fst ?run = None"
    by (simp add: run_module_def script_def ask_def float_value_def)
  have "?run = (fst ?run, snd ?run)" by simp
  from final_run_call[OF this] r show ?thesis by (simp add: recorded_def)
qed

text \<open>
  C4, as the specification states it, counts five invocations. The script issues twelve
  calls, in eleven call statements, over the six stages the specification lists: none
  of the three counts is five.
\<close>

theorem five_invocations_counterexample:
  "length (issued script) \<noteq> 5
   \<and> length (filter is_call_stmt script) \<noteq> 5
   \<and> length (remdups (stages (issued script))) \<noteq> 5"
proof -
  have "length (issued script) = 12" by (simp add: issued_script)
  moreover have "length (filter is_call_stmt script) = 11" by (simp add: script_def)
  moreover have "length (remdups (stages (issued script))) = 6" by (simp add: stages_script)
  ultimately show ?thesis by simp
qed

text \<open>
  C4, amended. The script is a straight line of statements which issues exactly twelve
  calls of the external library, in this order, and the stages of these calls are, in
  order and without going back: initialize context, build lattice, define potential,
  define integrator, define output writers, run.
\<close>

theorem invocation_order:
  "straight_line [] script
   \<and> length (issued script) = 12
   \<and> map callee (issued script) =
       map Some
        [hoomd [''context'', ''initialize''],
         hoomd [''lattice'', ''sc''],
         hoomd [''init'', ''create_lattice''],
         hoomd [''md'', ''nlist'', ''cell''],
         hoomd [''md'', ''pair'', ''lj''],
         VObj (Member (Member (Result 4) ''pair_coeff'') ''set''),
         hoomd [''group'', ''all''],
         hoomd [''md'', ''integrate'', ''mode_standard''],
         hoomd [''md'', ''integrate'', ''langevin''],
         hoomd [''analyze'', ''log''],
         hoomd [''dump'', ''gsd''],
         hoomd [''run'']]
   \<and> stages (issued script) =
       map Some [InitContext, BuildLattice, BuildLattice,
         DefinePotential, DefinePotential, DefinePotential,
         DefineIntegrator, DefineIntegrator, DefineIntegrator,
         DefineWriters, DefineWriters, RunSteps]
   \<and> sorted (map stage_rank (map the (stages (issued script))))
   \<and> remdups (stages (issued script)) =
       map Some [InitContext, BuildLattice, DefinePotential, DefineIntegrator,
         DefineWriters, RunSteps]"
proof (intro conjI)
  show "straight_line [] script" by (simp add: script_def)
  show "length (issued script) = 12" by (simp add: issued_script)
  show "map callee (issued script) =
       map Some
        [hoomd [''context'', ''initialize''],
         hoomd [''lattice'', ''sc''],
         hoomd [''init'', ''create_lattice''],
         hoomd [''md'', ''nlist'', ''cell''],
         hoomd [''md'', ''pair'', ''lj''],
         VObj (Member (Member (Result 4) ''pair_coeff'') ''set''),
         hoomd [''group'', ''all''],
         hoomd [''md'', ''integrate'', ''mode_standard''],
         hoomd [''md'', ''integrate'', ''langevin''],
         hoomd [''analyze'', ''log''],
         hoomd [''dump'', ''gsd''],
         hoomd [''run'']]"
    by (simp add: issued_script)
  show "stages (issued script) =
       map Some [InitContext, BuildLattice, BuildLattice,
         DefinePotential, DefinePotential, DefinePotential,
         DefineIntegrator, DefineIntegrator, DefineIntegrator,
         DefineWriters, DefineWriters, RunSteps]"
    by (rule stages_script)
  show "sorted (map stage_rank (map the (stages (issued script))))"
    by (simp add: stages_script)
  show "remdups (stages (issued script)) =
       map Some [InitContext, BuildLattice, DefinePotential, DefineIntegrator,
         DefineWriters, RunSteps]"
    by (simp add: stages_script)
qed

text \<open>
  C5. The script has no \<^verbatim>\<open>try\<close> statement. Against every engine, in every world: every
  request before the last one of the trace succeeded, so a request that fails is the
  last thing the script does (no retry, no recovery); and the script ends with an error
  \<open>e\<close> of the engine exactly when the last request it made failed with \<open>e\<close> (the error
  reaches the caller of the module as it was raised).
\<close>

theorem failures_propagate:
  assumes "run_module eng script w = (r, s)"
  shows "list_all handler_free script
       \<and> list_all succeeded (butlast (trace s))
       \<and> (r = Some (External e)) = (trace s \<noteq> [] \<and> snd (last (trace s)) = Inl e)"
proof -
  have hf: "list_all handler_free script" by (simp add: script_def)
  from assms have ex: "exec_block eng script \<lparr>env = Map.empty, world = w, trace = []\<rparr> = (r, s)"
    by (simp only: run_module_def)
  have c: "consistent (trace s) r"
    by (rule exec_block_consistent[OF hf ex]) simp
  from hf consistent_butlast[OF c] consistent_External[OF c] show ?thesis
    by simp
qed

theorem failures_propagate_witness:
  "fst (run_module (failing_at 9 ''ValueError'') script (0, 0)) = Some (External ''ValueError'')
   \<and> length (trace (snd (run_module (failing_at 9 ''ValueError'') script (0, 0)))) = 10
   \<and> snd (last (trace (snd (run_module (failing_at 9 ''ValueError'') script (0, 0)))))
        = Inl ''ValueError''
   \<and> list_all succeeded
        (butlast (trace (snd (run_module (failing_at 9 ''ValueError'') script (0, 0)))))"
proof -
  let ?run = "run_module (failing_at 9 ''ValueError'') script (0, 0)"
  have r: "fst ?run = Some (External ''ValueError'')"
    by (simp add: run_module_def script_def ask_def failing_at_def float_value_def)
  have n: "length (trace (snd ?run)) = 10"
    by (simp add: run_module_def script_def ask_def failing_at_def float_value_def)
  have "?run = (fst ?run, snd ?run)" by simp
  from failures_propagate[OF this, of "''ValueError''"] r n show ?thesis by simp
qed

text \<open>
  C6, as stated, has every handle used only as an argument of later calls. The handle
  the script binds to \<^verbatim>\<open>lj\<close> (the result of \<^verbatim>\<open>hoomd.md.pair.lj\<close>, the fifth call) is never
  passed as an argument: its only use is the read of its attribute \<^verbatim>\<open>pair_coeff\<close>.
\<close>

theorem handle_only_passed_counterexample:
  "producer (issued script) (VObj (Result 4))
     = Some (ReqCall (hoomd [''md'', ''pair'', ''lj'']) []
               [(''r_cut'', VFloat 2.5), (''nlist'', VObj (Result 3))])
   \<and> handle_uses (Result 4) (recorded script) = [Read ''pair_coeff'']
   \<and> \<not> list_all is_argument (handle_uses (Result 4) (recorded script))"
proof -
  have "handle_uses (Result 4) (recorded script) = [Read ''pair_coeff'']"
    by (simp add: recorded_script hoomd_def handle_uses_def)
  moreover have "producer (issued script) (VObj (Result 4))
     = Some (ReqCall (hoomd [''md'', ''pair'', ''lj'']) []
               [(''r_cut'', VFloat 2.5), (''nlist'', VObj (Result 3))])"
    by (simp add: issued_script)
  ultimately show ?thesis by simp
qed

text \<open>
  C6, amended. Of the objects returned by the twelve calls, the unit cell, the neighbor
  list and the group are used only as keyword arguments of later calls
  (\<^verbatim>\<open>unitcell\<close>, \<^verbatim>\<open>nlist\<close>, \<^verbatim>\<open>group\<close> twice), the pair potential is used only to read its
  attribute \<^verbatim>\<open>pair_coeff\<close>, and the eight others are not used at all. The object read
  from \<^verbatim>\<open>pair_coeff\<close> is used only to read its attribute \<^verbatim>\<open>set\<close>, and what is read there
  is only called: \<^verbatim>\<open>set('A', 'A', epsilon=1.0, sigma=1.0)\<close> is the one call of the script
  that does not go into the package \<^verbatim>\<open>hoomd\<close> itself.
\<close>

theorem handle_uses_of_script:
  "map (\<lambda>n. handle_uses (Result n) (recorded script)) [0..<length (issued script)] =
     [[], [Passed ''unitcell''], [], [Passed ''nlist''], [Read ''pair_coeff''], [],
      [Passed ''group'', Passed ''group''], [], [], [], [], []]
   \<and> handle_uses (Member (Result 4) ''pair_coeff'') (recorded script) = [Read ''set'']
   \<and> handle_uses (Member (Member (Result 4) ''pair_coeff'') ''set'') (recorded script)
       = [Called]
   \<and> filter (\<lambda>c. \<not> calls_into [] c) (issued script) =
       [ReqCall (VObj (Member (Member (Result 4) ''pair_coeff'') ''set''))
          [VStr ''A'', VStr ''A''] [(''epsilon'', VFloat 1), (''sigma'', VFloat 1)]]"
proof (intro conjI)
  have "length (issued script) = 12" by (simp add: issued_script)
  then show "map (\<lambda>n. handle_uses (Result n) (recorded script)) [0..<length (issued script)] =
     [[], [Passed ''unitcell''], [], [Passed ''nlist''], [Read ''pair_coeff''], [],
      [Passed ''group'', Passed ''group''], [], [], [], [], []]"
    by (simp add: handle_uses_script)
  show "handle_uses (Member (Result 4) ''pair_coeff'') (recorded script) = [Read ''set'']"
    by (simp add: recorded_script hoomd_def handle_uses_def)
  show "handle_uses (Member (Member (Result 4) ''pair_coeff'') ''set'') (recorded script)
       = [Called]"
    by (simp add: recorded_script hoomd_def handle_uses_def)
  show "filter (\<lambda>c. \<not> calls_into [] c) (issued script) =
       [ReqCall (VObj (Member (Member (Result 4) ''pair_coeff'') ''set''))
          [VStr ''A'', VStr ''A''] [(''epsilon'', VFloat 1), (''sigma'', VFloat 1)]]"
    by (simp add: issued_script hoomd_def)
qed

text \<open>
  C7. The script imports \<^verbatim>\<open>hoomd\<close> and \<^verbatim>\<open>hoomd.md\<close> and nothing else; every request it
  makes is addressed to that package or to an object obtained from it, and it reads no
  name it has not bound itself (so no builtin such as \<^verbatim>\<open>open\<close>, and no module for files,
  sockets or the environment). The calls into the output writers of the library
  (\<^verbatim>\<open>hoomd.analyze\<close>, \<^verbatim>\<open>hoomd.dump\<close>) are the two configured ones, and the only strings
  the script hands to the engine are the type name \<^verbatim>\<open>A\<close> (twice), the two file names
  and the quantity name.
\<close>

theorem only_two_files_requested:
  "filter is_import (map fst (recorded script)) =
     [ReqImport ''hoomd'' [], ReqImport ''hoomd'' [''md'']]
   \<and> list_all addressed_to_engine (map fst (recorded script))
   \<and> straight_line [] script
   \<and> filter (\<lambda>c. calls_into [''analyze''] c \<or> calls_into [''dump''] c) (issued script) =
       [ReqCall (hoomd [''analyze'', ''log'']) []
          [(''filename'', VStr ''log-output.log''),
           (''quantities'', VList [VStr ''potential_energy'']),
           (''period'', VInt 100), (''overwrite'', VBool True)],
        ReqCall (hoomd [''dump'', ''gsd'']) [VStr ''trajectory.gsd'']
          [(''period'', VFloat 2000), (''group'', VObj (Result 6)),
           (''overwrite'', VBool True)]]
   \<and> map (\<lambda>c. (callee c, strings_passed c))
        (filter (\<lambda>c. strings_passed c \<noteq> []) (issued script)) =
       [(Some (VObj (Member (Member (Result 4) ''pair_coeff'') ''set'')), [''A'', ''A'']),
        (Some (hoomd [''analyze'', ''log'']), [''log-output.log'', ''potential_energy'']),
        (Some (hoomd [''dump'', ''gsd'']), [''trajectory.gsd''])]"
proof (intro conjI)
  show "filter is_import (map fst (recorded script)) =
     [ReqImport ''hoomd'' [], ReqImport ''hoomd'' [''md'']]"
    by (simp add: recorded_script)
  show "list_all addressed_to_engine (map fst (recorded script))"
    by (simp add: recorded_script hoomd_def)
  show "straight_line [] script" by (simp add: script_def)
  show "filter (\<lambda>c. calls_into [''analyze''] c \<or> calls_into [''dump''] c) (issued script) =
       [ReqCall (hoomd [''analyze'', ''log'']) []
          [(''filename'', VStr ''log-output.log''),
           (''quantities'', VList [VStr ''potential_energy'']),
           (''period'', VInt 100), (''overwrite'', VBool True)],
        ReqCall (hoomd [''dump'', ''gsd'']) [VStr ''trajectory.gsd'']
          [(''period'', VFloat 2000), (''group'', VObj (Result 6)),
           (''overwrite'', VBool True)]]"
    by (simp add: issued_script hoomd_def)
  show "map (\<lambda>c. (callee c, strings_passed c))
        (filter (\<lambda>c. strings_passed c \<noteq> []) (issued script)) =
       [(Some (VObj (Member (Member (Result 4) ''pair_coeff'') ''set'')), [''A'', ''A'']),
        (Some (hoomd [''analyze'', ''log'']), [''log-output.log'', ''potential_energy'']),
        (Some (hoomd [''dump'', ''gsd'']), [''trajectory.gsd''])]"
    by (simp add: issued_script)
qed

text \<open>
  C8. The calls into \<^verbatim>\<open>hoomd.md.integrate\<close> are \<^verbatim>\<open>mode_standard(dt=0.005)\<close> and then
  \<^verbatim>\<open>langevin(group=all, kT=0.2, seed=42)\<close>, where the group is the object returned by
  the seventh call, \<^verbatim>\<open>hoomd.group.all()\<close>, the only call into \<^verbatim>\<open>hoomd.group\<close>.
\<close>

theorem integrator_request:
  "filter (calls_into [''md'', ''integrate'']) (issued script) =
     [ReqCall (hoomd [''md'', ''integrate'', ''mode_standard'']) [] [(''dt'', VFloat 0.005)],
      ReqCall (hoomd [''md'', ''integrate'', ''langevin'']) []
        [(''group'', VObj (Result 6)), (''kT'', VFloat 0.2), (''seed'', VInt 42)]]
   \<and> producer (issued script) (VObj (Result 6)) = Some (ReqCall (hoomd [''group'', ''all'']) [] [])
   \<and> filter (calls_into [''group'']) (issued script) = [ReqCall (hoomd [''group'', ''all'']) [] []]"
  by (simp add: issued_script hoomd_def)

text \<open>
  C9. The log period is the integer 100; the trajectory period \<^verbatim>\<open>2e3\<close> and the run
  length \<^verbatim>\<open>1e4\<close> are floats whose values are the integers 2000 and 10000, both exact
  as binary64 numbers. The run length is 100 log periods and 5 trajectory periods, with
  no remainder.
\<close>

theorem periods_divide_run_length:
  "map (keyword_value ''period'') (filter (calls_into [''analyze'']) (issued script))
     = [Some (VInt 100)]
   \<and> map (keyword_value ''period'') (filter (calls_into [''dump'']) (issued script))
     = [Some (VFloat (float_value 2 3))]
   \<and> map positional (filter (calls_into [''run'']) (issued script))
     = [[VFloat (float_value 1 4)]]
   \<and> whole (VFloat (float_value 2 3) :: sym val) = Some 2000
   \<and> whole (VFloat (float_value 1 4) :: sym val) = Some 10000
   \<and> binary64_integer 2000 \<and> binary64_integer 10000
   \<and> intervals 10000 100 = Some 100
   \<and> intervals 10000 2000 = Some 5"
  by (simp add: issued_script hoomd_def float_value_def binary64_integer_def intervals_def)


section \<open>The lattice and the potential\<close>

text \<open>
  The lattice request. The calls into \<^verbatim>\<open>hoomd.lattice\<close> and \<^verbatim>\<open>hoomd.init\<close> are
  \<^verbatim>\<open>hoomd.lattice.sc(a=2.0)\<close>, with no other argument (no type name), and then
  \<^verbatim>\<open>hoomd.init.create_lattice(unitcell=..., n=5)\<close> whose unit cell is the object the first
  of the two returned. How many particles the engine builds from them is the engine's
  business.
\<close>

theorem lattice_request:
  "filter (\<lambda>c. calls_into [''lattice''] c \<or> calls_into [''init''] c) (issued script) =
     [ReqCall (hoomd [''lattice'', ''sc'']) [] [(''a'', VFloat 2.0)],
      ReqCall (hoomd [''init'', ''create_lattice'']) []
        [(''unitcell'', VObj (Result 1)), (''n'', VInt 5)]]
   \<and> producer (issued script) (VObj (Result 1))
       = Some (ReqCall (hoomd [''lattice'', ''sc'']) [] [(''a'', VFloat 2.0)])"
  by (simp add: issued_script hoomd_def)

text \<open>
  The potential request. The calls into \<^verbatim>\<open>hoomd.md.nlist\<close> and \<^verbatim>\<open>hoomd.md.pair\<close> are
  \<^verbatim>\<open>hoomd.md.nlist.cell()\<close> and then \<^verbatim>\<open>hoomd.md.pair.lj(r_cut=2.5, nlist=nl)\<close>, whose
  neighbor list is the object the first returned; the one method call on the pair
  potential sets the coefficients of the type pair \<^verbatim>\<open>('A', 'A')\<close> to \<^verbatim>\<open>epsilon=1.0\<close>,
  \<^verbatim>\<open>sigma=1.0\<close>.
\<close>

theorem potential_request:
  "filter (\<lambda>c. calls_into [''md'', ''nlist''] c \<or> calls_into [''md'', ''pair''] c)
      (issued script) =
     [ReqCall (hoomd [''md'', ''nlist'', ''cell'']) [] [],
      ReqCall (hoomd [''md'', ''pair'', ''lj'']) []
        [(''r_cut'', VFloat 2.5), (''nlist'', VObj (Result 3))]]
   \<and> producer (issued script) (VObj (Result 3))
       = Some (ReqCall (hoomd [''md'', ''nlist'', ''cell'']) [] [])
   \<and> filter (calls_on 4) (issued script) =
     [ReqCall (VObj (Member (Member (Result 4) ''pair_coeff'') ''set''))
        [VStr ''A'', VStr ''A''] [(''epsilon'', VFloat 1.0), (''sigma'', VFloat 1.0)]]"
  by (simp add: issued_script hoomd_def)

end
